theory Spec2Isabelle
  imports Main "HOL-Library.Word"
begin

section \<open>Simineq Markdown Editor: the document controller of \<open>main.py\<close>\<close>

text \<open>
  The program is one class, \<open>MarkdownEditor\<close>, whose methods mutate the fields of a single
  long-lived instance and the file system. The embedding passes that state explicitly: a
  record holds the instance's fields, the content of the widgets the methods touch, the
  message boxes shown so far and the files on disk. What the user answers in a dialog is an
  argument of the method that opens the dialog.
\<close>

subsection \<open>Data\<close>

type_synonym byte = "8 word"

text \<open>A Python \<open>str\<close> is a sequence of code points.\<close>

type_synonym str = "nat list"

type_synonym path = string

text \<open>The exceptions the two \<open>try\<close> blocks can catch.\<close>

datatype exn = OSError | UnicodeDecodeError | UnicodeEncodeError

text \<open>
  The blocking message boxes: \<open>showerror\<close> in \<open>open_file\<close> (file read failed) and in
  \<open>save_file\<close> (save failed), and \<open>showinfo\<close> in \<open>show_about\<close>.
\<close>

datatype notice = ReadFailed exn | SaveFailed exn | About

text \<open>The window titles and status lines the methods set (their wording is not modelled).\<close>

datatype window_title = TitleInitial | TitleUntitled | TitleFile path

datatype status_text = StatusEmpty | StatusCreated | StatusOpened path | StatusSaved path

text \<open>\<open>os.linesep\<close> depends on the platform.\<close>

datatype platform = Posix | Windows

record editor =
  buffer :: str
  edit_modified :: bool
  current_file :: "path option"
  title :: window_title
  status_var :: status_text
  preview :: str
  notices :: "notice list"
  files :: "path \<Rightarrow> byte list option"
  readable :: "path \<Rightarrow> bool"
  writable :: "path \<Rightarrow> bool"
  os :: platform

subsection \<open>The text codec of Python's \<open>open(..., encoding='utf-8')\<close>\<close>

text \<open>Strict UTF-8: no overlong forms, no surrogates, nothing above U+10FFFF.\<close>

definition cont :: "nat \<Rightarrow> bool" where
  "cont b = (0x80 \<le> b \<and> b < 0xC0)"

definition second_ok :: "nat \<Rightarrow> nat \<Rightarrow> bool" where
  "second_ok b0 b1 =
     ((if b0 = 0xE0 then 0xA0 else if b0 = 0xF0 then 0x90 else 0x80) \<le> b1 \<and>
      b1 < (if b0 = 0xED then 0xA0 else if b0 = 0xF4 then 0x90 else 0xC0))"

fun utf8_decode :: "nat list \<Rightarrow> str option" where
  "utf8_decode [] = Some []"
| "utf8_decode (b0 # bs) =
     (if b0 < 0x80 then map_option ((#) b0) (utf8_decode bs)
      else if 0xC2 \<le> b0 \<and> b0 < 0xE0 then
        (case bs of
           b1 # r \<Rightarrow>
             if cont b1
             then map_option ((#) ((b0 - 0xC0) * 64 + (b1 - 0x80))) (utf8_decode r)
             else None
         | _ \<Rightarrow> None)
      else if 0xE0 \<le> b0 \<and> b0 < 0xF0 then
        (case bs of
           b1 # b2 # r \<Rightarrow>
             if second_ok b0 b1 \<and> cont b2
             then map_option
                    ((#) ((b0 - 0xE0) * 4096 + (b1 - 0x80) * 64 + (b2 - 0x80)))
                    (utf8_decode r)
             else None
         | _ \<Rightarrow> None)
      else if 0xF0 \<le> b0 \<and> b0 < 0xF5 then
        (case bs of
           b1 # b2 # b3 # r \<Rightarrow>
             if second_ok b0 b1 \<and> cont b2 \<and> cont b3
             then map_option
                    ((#) ((b0 - 0xF0) * 262144 + (b1 - 0x80) * 4096 + (b2 - 0x80) * 64
                          + (b3 - 0x80)))
                    (utf8_decode r)
             else None
         | _ \<Rightarrow> None)
      else None)"

definition encode_cp :: "nat \<Rightarrow> nat list option" where
  "encode_cp c =
     (if c < 0x80 then Some [c]
      else if c < 0x800 then Some [0xC0 + c div 64, 0x80 + c mod 64]
      else if c < 0x10000 then
        (if 0xD800 \<le> c \<and> c < 0xE000 then None
         else Some [0xE0 + c div 4096, 0x80 + (c div 64) mod 64, 0x80 + c mod 64])
      else if c < 0x110000 then
        Some [0xF0 + c div 262144, 0x80 + (c div 4096) mod 64, 0x80 + (c div 64) mod 64,
              0x80 + c mod 64]
      else None)"

fun utf8_encode :: "str \<Rightarrow> nat list option" where
  "utf8_encode [] = Some []"
| "utf8_encode (c # cs) =
     (case encode_cp c of
        None \<Rightarrow> None
      | Some bs \<Rightarrow> (case utf8_encode cs of None \<Rightarrow> None | Some r \<Rightarrow> Some (bs @ r)))"

text \<open>
  Text mode with \<open>newline=None\<close>: reading turns \<open>\r\n\<close> and a lone \<open>\r\<close> into \<open>\n\<close>,
  writing turns \<open>\n\<close> into \<open>os.linesep\<close>.
\<close>

fun universal_newlines :: "str \<Rightarrow> str" where
  "universal_newlines [] = []"
| "universal_newlines (c # cs) =
     (if c = 13 then
        (case cs of
           [] \<Rightarrow> [10]
         | d # ds \<Rightarrow>
             if d = 10 then 10 # universal_newlines ds else 10 # universal_newlines cs)
      else c # universal_newlines cs)"

definition linesep :: "platform \<Rightarrow> str" where
  "linesep p = (case p of Posix \<Rightarrow> [10] | Windows \<Rightarrow> [13, 10])"

definition write_newlines :: "platform \<Rightarrow> str \<Rightarrow> str" where
  "write_newlines p t = concat (map (\<lambda>c. if c = 10 then linesep p else [c]) t)"

subsection \<open>File access\<close>

text \<open>\<open>open(file_path, 'r', encoding='utf-8')\<close>: fails when the file cannot be opened.\<close>

definition open_read :: "editor \<Rightarrow> path \<Rightarrow> exn + byte list" where
  "open_read s p =
     (case files s p of
        None \<Rightarrow> Inl OSError
      | Some bs \<Rightarrow> if readable s p then Inr bs else Inl OSError)"

text \<open>\<open>f.read()\<close>: decodes the whole file, then translates the line ends.\<close>

definition read_text :: "byte list \<Rightarrow> exn + str" where
  "read_text bs =
     (case utf8_decode (map unat bs) of
        None \<Rightarrow> Inl UnicodeDecodeError
      | Some t \<Rightarrow> Inr (universal_newlines t))"

text \<open>
  \<open>with open(p, 'w', encoding='utf-8') as f: f.write(t)\<close>: opening truncates the file, so
  a text that does not encode leaves it empty.
\<close>

definition write_text :: "editor \<Rightarrow> path \<Rightarrow> str \<Rightarrow> exn option \<times> editor" where
  "write_text s p t =
     (if writable s p then
        (case utf8_encode (write_newlines (os s) t) of
           None \<Rightarrow> (Some UnicodeEncodeError, s\<lparr>files := (files s)(p \<mapsto> [])\<rparr>)
         | Some bs \<Rightarrow> (None, s\<lparr>files := (files s)(p \<mapsto> map of_nat bs)\<rparr>))
      else (Some OSError, s))"

subsection \<open>The Tk text widget\<close>

text \<open>
  \<open>buffer\<close> is what the user sees in the widget. Tk keeps one more newline after it, which
  no deletion removes and which \<open>get(1.0, END)\<close> returns with the rest. Insertions and
  deletions that change the text set the widget's modified flag.
\<close>

definition text_get_all :: "editor \<Rightarrow> str" where
  "text_get_all s = buffer s @ [10]"

definition text_delete_all :: "editor \<Rightarrow> editor" where
  "text_delete_all s =
     s\<lparr>buffer := [], edit_modified := (if buffer s = [] then edit_modified s else True)\<rparr>"

definition text_insert_end :: "str \<Rightarrow> editor \<Rightarrow> editor" where
  "text_insert_end t s =
     s\<lparr>buffer := buffer s @ t, edit_modified := (if t = [] then edit_modified s else True)\<rparr>"

definition showerror :: "notice \<Rightarrow> editor \<Rightarrow> editor" where
  "showerror n s = s\<lparr>notices := notices s @ [n]\<rparr>"

definition showinfo :: "notice \<Rightarrow> editor \<Rightarrow> editor" where
  "showinfo n s = s\<lparr>notices := notices s @ [n]\<rparr>"

subsection \<open>The methods\<close>

text \<open>\<open>if self.current_file\<close> is false for \<open>None\<close> and for the empty string.\<close>

definition is_set :: "path option \<Rightarrow> bool" where
  "is_set c = (case c of None \<Rightarrow> False | Some p \<Rightarrow> p \<noteq> [])"

text \<open>The \<open>try\<close> block of \<open>save_file\<close>, for the path \<open>p\<close> that \<open>current_file\<close> holds.\<close>

definition save_to :: "path \<Rightarrow> editor \<Rightarrow> editor" where
  "save_to p s =
     (case write_text s p (text_get_all s) of
        (None, s1) \<Rightarrow> s1\<lparr>edit_modified := False, status_var := StatusSaved p\<rparr>
      | (Some e, s1) \<Rightarrow> showerror (SaveFailed e) s1)"

text \<open>
  \<open>save_file\<close> and \<open>save_as_file\<close> call each other. \<open>dlg\<close> is what
  \<open>asksaveasfilename\<close> returns: the chosen path, or the empty string when the user closes
  the dialog. The dialog is opened at most once: \<open>save_as_file\<close> sets a non-empty
  \<open>current_file\<close> before it calls \<open>save_file\<close>.
\<close>

function save_file :: "path \<Rightarrow> editor \<Rightarrow> editor"
  and save_as_file :: "path \<Rightarrow> editor \<Rightarrow> editor" where
  "save_file dlg s =
     (case current_file s of
        None \<Rightarrow> save_as_file dlg s
      | Some p \<Rightarrow> if p = [] then save_as_file dlg s else save_to p s)"
| "save_as_file dlg s =
     (if dlg = [] then s else save_file dlg (s\<lparr>current_file := Some dlg\<rparr>))"
  by pat_completeness auto
termination
  by (relation "measure (\<lambda>x. case x of
        Inl (dlg, s) \<Rightarrow>
          (case current_file s of None \<Rightarrow> 2 | Some p \<Rightarrow> if p = [] then 2 else 0)
      | Inr (dlg, s) \<Rightarrow> 1)") auto

text \<open>
  \<open>choice\<close> is what \<open>askyesnocancel\<close> returns: \<open>True\<close> (save), \<open>False\<close> (discard) or
  \<open>None\<close> (cancel). It is asked for only when the widget's modified flag is set.
\<close>

definition clear_document :: "editor \<Rightarrow> editor" where
  "clear_document s =
     (text_delete_all s)
       \<lparr>current_file := None, title := TitleUntitled, status_var := StatusCreated\<rparr>"

definition new_file :: "bool option \<Rightarrow> path \<Rightarrow> editor \<Rightarrow> editor" where
  "new_file choice dlg s =
     (if edit_modified s then
        (case choice of
           None \<Rightarrow> s
         | Some c \<Rightarrow> clear_document (if c then save_file dlg s else s))
      else clear_document s)"

text \<open>
  \<open>file_path\<close> is what \<open>askopenfilename\<close> returns. The widget is emptied inside the
  \<open>with\<close> block, after the file has been opened and before \<open>f.read()\<close> runs.
\<close>

definition open_file :: "path \<Rightarrow> editor \<Rightarrow> editor" where
  "open_file file_path s =
     (if file_path = [] then s
      else
        (case open_read s file_path of
           Inl e \<Rightarrow> showerror (ReadFailed e) s
         | Inr bs \<Rightarrow>
             (let s1 = text_delete_all s in
              case read_text bs of
                Inl e \<Rightarrow> showerror (ReadFailed e) s1
              | Inr t \<Rightarrow>
                  (text_insert_end t s1)
                    \<lparr>current_file := Some file_path, title := TitleFile file_path,
                     status_var := StatusOpened file_path\<rparr>)))"

text \<open>
  \<open>markdown\<close> is the converter of the library markdown2, a parameter here: it gets the
  extras and the text, and \<open>None\<close> stands for an exception, which \<open>update_preview\<close> does
  not catch, so that \<open>set_html\<close> is not reached.
\<close>

definition extras :: "string list" where
  "extras = [''fenced-code-blocks'', ''tables'']"

definition update_preview :: "(string list \<Rightarrow> str \<Rightarrow> str option) \<Rightarrow> editor \<Rightarrow> editor" where
  "update_preview markdown s =
     (case markdown extras (text_get_all s) of
        None \<Rightarrow> s
      | Some html \<Rightarrow> s\<lparr>preview := html\<rparr>)"

definition show_about :: "editor \<Rightarrow> editor" where
  "show_about s = showinfo About s"

text \<open>
  The handlers that \<open>_create_menu\<close> and \<open>_bind_events\<close> register. An event carries the
  answers the user gives in the dialogs its handler opens.
\<close>

datatype event =
    KeyRelease
  | ControlN "bool option" path
  | ControlS path
  | MenuNew "bool option" path
  | MenuOpen path
  | MenuSave path
  | MenuSaveAs path
  | MenuAbout

fun dispatch :: "(string list \<Rightarrow> str \<Rightarrow> str option) \<Rightarrow> event \<Rightarrow> editor \<Rightarrow> editor" where
  "dispatch md KeyRelease s = update_preview md s"
| "dispatch md (ControlN choice dlg) s = new_file choice dlg s"
| "dispatch md (ControlS dlg) s = save_file dlg s"
| "dispatch md (MenuNew choice dlg) s = new_file choice dlg s"
| "dispatch md (MenuOpen file_path) s = open_file file_path s"
| "dispatch md (MenuSave dlg) s = save_file dlg s"
| "dispatch md (MenuSaveAs dlg) s = save_as_file dlg s"
| "dispatch md MenuAbout s = show_about s"

subsection \<open>A state to run the methods on\<close>

text \<open>
  An unnamed document holding \<open>hi\<close> with unsaved changes, on a disk with the file
  \<open>notes.md\<close> (\<open>abc\<close>, no final newline), the file \<open>gbk.md\<close> (one byte that is not
  UTF-8) and a path \<open>ro.md\<close> that cannot be opened for writing.
\<close>

definition demo :: editor where
  "demo =
     \<lparr>buffer = [104, 105], edit_modified = True, current_file = None,
      title = TitleInitial, status_var = StatusEmpty, preview = [], notices = [],
      files = [''notes.md'' \<mapsto> [0x61, 0x62, 0x63], ''gbk.md'' \<mapsto> [0xFF]],
      readable = (\<lambda>p. True), writable = (\<lambda>p. p \<noteq> ''ro.md''), os = Posix\<rparr>"

subsection \<open>How the two save methods unfold\<close>

lemma save_as_file_closed: "save_as_file [] s = s"
  by simp

lemma save_file_set: "current_file s = Some p \<Longrightarrow> p \<noteq> [] \<Longrightarrow> save_file dlg s = save_to p s"
  by simp

lemma save_as_file_chosen:
  "dlg \<noteq> [] \<Longrightarrow> save_as_file dlg s = save_to dlg (s\<lparr>current_file := Some dlg\<rparr>)"
  by simp

lemma save_file_unset: "\<not> is_set (current_file s) \<Longrightarrow> save_file dlg s = save_as_file dlg s"
  by (cases "current_file s") (simp_all add: is_set_def)

declare save_file.simps [simp del] save_as_file.simps [simp del]

lemma save_to_unfold:
  "save_to p s =
     (if writable s p then
        (case utf8_encode (write_newlines (os s) (text_get_all s)) of
           None \<Rightarrow>
             showerror (SaveFailed UnicodeEncodeError) (s\<lparr>files := (files s)(p \<mapsto> [])\<rparr>)
         | Some bs \<Rightarrow>
             s\<lparr>files := (files s)(p \<mapsto> map of_nat bs), edit_modified := False,
               status_var := StatusSaved p\<rparr>)
      else showerror (SaveFailed OSError) s)"
  by (simp add: save_to_def write_text_def split: option.split)

lemma save_file_unfold:
  "save_file dlg s =
     (case current_file s of
        None \<Rightarrow> if dlg = [] then s else save_to dlg (s\<lparr>current_file := Some dlg\<rparr>)
      | Some p \<Rightarrow>
          if p = [] then (if dlg = [] then s else save_to dlg (s\<lparr>current_file := Some dlg\<rparr>))
          else save_to p s)"
  by (cases "current_file s"; cases "dlg = []")
    (simp_all add: save_file_unset save_file_set is_set_def save_as_file_closed
      save_as_file_chosen)

lemma save_to_preview: "preview (save_to p s) = preview s"
  by (simp add: save_to_def write_text_def showerror_def split: option.split)

lemma save_to_buffer: "buffer (save_to p s) = buffer s"
  by (simp add: save_to_def write_text_def showerror_def split: option.split)

lemma save_to_current_file: "current_file (save_to p s) = current_file s"
  by (simp add: save_to_def write_text_def showerror_def split: option.split)

lemma save_as_file_preview: "preview (save_as_file dlg s) = preview s"
  by (cases "dlg = []") (simp_all add: save_as_file_closed save_as_file_chosen save_to_preview)

lemma save_file_preview: "preview (save_file dlg s) = preview s"
proof (cases "is_set (current_file s)")
  case True
  then obtain p where "current_file s = Some p" "p \<noteq> []"
    by (auto simp: is_set_def split: option.splits)
  then show ?thesis
    by (simp add: save_file_set save_to_preview)
next
  case False
  then show ?thesis
    by (simp add: save_file_unset save_as_file_preview)
qed

lemma clear_document_preview: "preview (clear_document s) = preview s"
  by (simp add: clear_document_def text_delete_all_def)

lemma clear_document_fields:
  "buffer (clear_document s) = []" "current_file (clear_document s) = None"
  "files (clear_document s) = files s" "notices (clear_document s) = notices s"
  by (simp_all add: clear_document_def text_delete_all_def)

lemma new_file_preview: "preview (new_file choice dlg s) = preview s"
  by (simp add: new_file_def clear_document_preview save_file_preview split: option.split)

lemma open_file_preview: "preview (open_file file_path s) = preview s"
  by (simp add: open_file_def showerror_def text_delete_all_def text_insert_end_def Let_def
      split: sum.split)

lemma update_preview_converted:
  "markdown extras (buffer s @ [10]) = Some html \<Longrightarrow>
   update_preview markdown s = s\<lparr>preview := html\<rparr>"
  by (simp add: update_preview_def text_get_all_def)

lemma update_preview_raised:
  "markdown extras (buffer s @ [10]) = None \<Longrightarrow> update_preview markdown s = s"
  by (simp add: update_preview_def text_get_all_def)

subsection \<open>Cancelling the prompt of \<open>new_file\<close>\<close>

text \<open>
  C4. When the widget's modified flag is set and the user answers the prompt of
  \<open>new_file\<close> with cancel, the method returns at once: the buffer, the current file, the
  modified flag and everything else are as they were.
\<close>

theorem new_file_cancel_keeps_state:
  "edit_modified s \<Longrightarrow> new_file None dlg s = s"
  by (simp add: new_file_def)

theorem new_file_cancel_keeps_state_witness:
  "edit_modified demo \<and> new_file None ''x.md'' demo = demo"
  using new_file_cancel_keeps_state [of demo "''x.md''"] by (simp add: demo_def)

subsection \<open>The preview is refreshed by the key-release handler only\<close>

text \<open>
  C10. Neither \<open>open_file\<close> nor \<open>new_file\<close> runs the render pipeline: both leave the
  preview as it was, although they replace the buffer. Of all the handlers the program
  registers, only the one bound to the key release can change the preview, so after a file
  has been opened the preview keeps showing what it showed before.
\<close>

theorem preview_only_on_key_release:
  "preview (open_file file_path s) = preview s \<and>
   preview (new_file choice dlg s) = preview s \<and>
   (\<forall>ev. ev \<noteq> KeyRelease \<longrightarrow> preview (dispatch md ev s) = preview s)"
proof -
  have "preview (dispatch md ev s) = preview s" if "ev \<noteq> KeyRelease" for ev
    using that
    by (cases ev)
      (simp_all add: new_file_preview open_file_preview save_file_preview
        save_as_file_preview show_about_def showinfo_def)
  then show ?thesis
    by (simp add: new_file_preview open_file_preview)
qed

theorem preview_only_on_key_release_witness:
  "preview (open_file ''notes.md'' demo) = [] \<and>
   buffer (open_file ''notes.md'' demo) = [97, 98, 99] \<and>
   preview (new_file (Some False) [] demo) = [] \<and>
   MenuOpen ''notes.md'' \<noteq> KeyRelease \<and>
   preview (dispatch (\<lambda>x t. Some t) (MenuOpen ''notes.md'') demo) = []"
proof -
  have p: "preview demo = []"
    by (simp add: demo_def)
  have b: "buffer (open_file ''notes.md'' demo) = [97, 98, 99]"
    by (simp add: open_file_def open_read_def read_text_def demo_def text_delete_all_def
        text_insert_end_def)
  from preview_only_on_key_release [of "''notes.md''" demo "Some False" "[]" "\<lambda>x t. Some t"]
  show ?thesis
    using p b by simp
qed

subsection \<open>\<open>new_file\<close> after a save that did not happen\<close>

text \<open>
  C9. In \<open>new_file\<close>, when the user answers the prompt with save and that save fails (the
  error box of \<open>save_file\<close> is shown) or is abandoned (the save-as dialog is closed, so
  that \<open>save_file\<close> changes nothing), the method goes on all the same: the buffer is
  emptied and the current file is cleared. The unsaved text is lost: every file on the
  disk is as before, or empty where the failed write truncated it.
\<close>

theorem new_file_clears_after_failed_save:
  assumes "edit_modified s"
    and "save_file dlg s = s \<or> (\<exists>e. notices (save_file dlg s) = notices s @ [SaveFailed e])"
  shows "buffer (new_file (Some True) dlg s) = [] \<and>
         current_file (new_file (Some True) dlg s) = None \<and>
         (\<forall>p. files (new_file (Some True) dlg s) p = files s p \<or>
              files (new_file (Some True) dlg s) p = Some [])"
proof -
  have n: "new_file (Some True) dlg s = clear_document (save_file dlg s)"
    using assms(1) by (simp add: new_file_def)
  from assms have "edit_modified (save_file dlg s) \<or>
      (\<exists>e. notices (save_file dlg s) = notices s @ [SaveFailed e])"
    by auto
  then have "files (save_file dlg s) p = files s p \<or> files (save_file dlg s) p = Some []" for p
    by (auto simp: save_file_unfold save_to_unfold showerror_def split: option.splits if_splits)
  then show ?thesis
    by (simp add: n clear_document_fields)
qed

theorem new_file_clears_after_failed_save_witness:
  "edit_modified demo \<and>
   notices (save_file ''ro.md'' demo) = notices demo @ [SaveFailed OSError] \<and>
   save_file [] demo = demo \<and>
   buffer demo = [104, 105] \<and>
   buffer (new_file (Some True) ''ro.md'' demo) = [] \<and>
   current_file (new_file (Some True) ''ro.md'' demo) = None \<and>
   files (new_file (Some True) ''ro.md'' demo) ''ro.md'' = None \<and>
   buffer (new_file (Some True) [] demo) = []"
proof -
  have a: "edit_modified demo" "buffer demo = [104, 105]"
    by (simp_all add: demo_def)
  have b: "notices (save_file ''ro.md'' demo) = notices demo @ [SaveFailed OSError]"
    by (simp add: save_file_unfold save_to_unfold showerror_def demo_def)
  have c: "save_file [] demo = demo"
    by (simp add: save_file_unfold demo_def)
  have d: "files (new_file (Some True) ''ro.md'' demo) ''ro.md'' = None"
    by (simp add: new_file_def clear_document_def text_delete_all_def save_file_unfold
        save_to_unfold showerror_def demo_def)
  from new_file_clears_after_failed_save [of demo "''ro.md''"]
    new_file_clears_after_failed_save [of demo "[]"] a b c d
  show ?thesis
    by auto
qed

subsection \<open>Saving a document that has no file yet\<close>




subsection \<open>What \<open>new_file\<close> leaves behind\<close>

lemma new_file_completed:
  "\<not> (edit_modified s \<and> choice = None) \<Longrightarrow>
   buffer (new_file choice dlg s) = [] \<and> current_file (new_file choice dlg s) = None"
  by (auto simp: new_file_def clear_document_fields split: option.splits)

lemma new_file_discard_modified:
  "edit_modified s \<Longrightarrow> edit_modified (new_file (Some False) dlg s)"
  by (simp add: new_file_def clear_document_def text_delete_all_def)

text \<open>
  C3 asks for an empty buffer, no current file and a modified flag reset to false once
  \<open>new_file\<close> has run to its end. The code clears the first two and never calls
  \<open>edit_modified(False)\<close>: on the document with unsaved changes, after the user has
  answered the prompt with discard, the buffer is empty, the current file is unset and the
  modified flag is still set.
\<close>

theorem new_file_discard_leaves_modified:
  "edit_modified demo \<and>
   buffer (new_file (Some False) [] demo) = [] \<and>
   current_file (new_file (Some False) [] demo) = None \<and>
   edit_modified (new_file (Some False) [] demo)"
  by (simp add: new_file_def clear_document_def text_delete_all_def demo_def)

subsection \<open>\<open>open_file\<close> on a file it cannot read\<close>

lemma open_file_not_opened:
  "file_path \<noteq> [] \<Longrightarrow> open_read s file_path = Inl e \<Longrightarrow>
   open_file file_path s = s\<lparr>notices := notices s @ [ReadFailed e]\<rparr>"
  by (simp add: open_file_def showerror_def)

lemma open_file_not_decoded:
  "file_path \<noteq> [] \<Longrightarrow> open_read s file_path = Inr bs \<Longrightarrow> read_text bs = Inl e \<Longrightarrow>
   open_file file_path s =
     (text_delete_all s)\<lparr>notices := notices s @ [ReadFailed e]\<rparr>"
  by (simp add: open_file_def showerror_def text_delete_all_def)

text \<open>
  C2 asks that a failed \<open>open_file\<close> shows the error and leaves the buffer and the
  current file as they were. That holds when the file cannot be opened
  (\<open>open_file_not_opened\<close>). When the file opens and its bytes are not UTF-8, the widget
  has been emptied before \<open>f.read()\<close> raises: on the document holding \<open>hi\<close>, opening
  \<open>gbk.md\<close> shows the error, keeps the current file and leaves an empty buffer.
\<close>

theorem open_file_undecodable_empties_buffer:
  "buffer demo = [104, 105] \<and>
   files demo ''gbk.md'' = Some [0xFF] \<and>
   buffer (open_file ''gbk.md'' demo) = [] \<and>
   current_file (open_file ''gbk.md'' demo) = current_file demo \<and>
   notices (open_file ''gbk.md'' demo) = [ReadFailed UnicodeDecodeError]"
  by (simp add: open_file_def open_read_def read_text_def text_delete_all_def showerror_def
      demo_def)

subsection \<open>Decoding what was encoded\<close>

text \<open>
  The bytes that \<open>utf8_encode\<close> produces decode to the text they came from. The digits
  of a code point in base 64 are named first, so that each case is linear arithmetic.
\<close>

lemma decode_1: "c < 0x80 \<Longrightarrow> utf8_decode (c # r) = map_option ((#) c) (utf8_decode r)"
  by simp

lemma decode_2:
  assumes "2 \<le> h" "h < 32" "m < 64"
  shows "utf8_decode ((0xC0 + h) # (0x80 + m) # r) = map_option ((#) (h * 64 + m)) (utf8_decode r)"
  using assms by (simp add: cont_def)

lemma decode_3:
  assumes "h < 16" "n < 64" "m < 64" "h = 0 \<Longrightarrow> 32 \<le> n" "h = 13 \<Longrightarrow> n < 32"
  shows "utf8_decode ((0xE0 + h) # (0x80 + n) # (0x80 + m) # r) =
         map_option ((#) (h * 4096 + n * 64 + m)) (utf8_decode r)"
  using assms by (simp add: cont_def second_ok_def)

lemma decode_4:
  assumes "g < 5" "k < 64" "n < 64" "m < 64" "g = 0 \<Longrightarrow> 16 \<le> k" "g = 4 \<Longrightarrow> k < 16"
  shows "utf8_decode ((0xF0 + g) # (0x80 + k) # (0x80 + n) # (0x80 + m) # r) =
         map_option ((#) (g * 262144 + k * 4096 + n * 64 + m)) (utf8_decode r)"
  using assms by (simp add: cont_def second_ok_def)

lemma digits64:
  fixes c :: nat
  shows "c = c div 64 * 64 + c mod 64" "c mod 64 < 64"
  by simp_all

lemma div_4096: "(c::nat) div 4096 = c div 64 div 64"
  by (simp add: div_mult2_eq [symmetric])

lemma div_262144: "(c::nat) div 262144 = c div 64 div 64 div 64"
  by (simp add: div_mult2_eq [symmetric])

lemma decode_encode_cp:
  assumes "encode_cp c = Some bs"
  shows "utf8_decode (bs @ r) = map_option ((#) c) (utf8_decode r)"
proof -
  define q where "q = c div 64"
  define h where "h = q div 64"
  define g where "g = h div 64"
  define m where "m = c mod 64"
  define n where "n = q mod 64"
  define k where "k = h mod 64"
  have cq: "c = q * 64 + m" and m: "m < 64"
    by (simp_all add: q_def m_def)
  have qh: "q = h * 64 + n" and n: "n < 64"
    by (simp_all add: h_def n_def)
  have hg: "h = g * 64 + k" and k: "k < 64"
    by (simp_all add: g_def k_def)
  have dv: "c div 64 = q" "c div 4096 = h" "c div 262144 = g"
    by (simp_all add: q_def h_def g_def div_4096 div_262144)
  have mo: "c mod 64 = m" "q mod 64 = n" "h mod 64 = k"
    by (simp_all add: m_def n_def k_def)
  consider (one) "c < 0x80" | (two) "0x80 \<le> c" "c < 0x800"
    | (three) "0x800 \<le> c" "c < 0x10000" | (four) "0x10000 \<le> c" "c < 0x110000"
    | (none) "0x110000 \<le> c"
    by linarith
  then show ?thesis
  proof cases
    case one
    with assms have "bs = [c]"
      by (simp add: encode_cp_def)
    with one show ?thesis
      by (simp only: append_Cons append_Nil decode_1)
  next
    case two
    with assms have bs: "bs = [0xC0 + q, 0x80 + m]"
      by (simp add: encode_cp_def dv mo)
    from two cq m have "2 \<le> q" "q < 32"
      by linarith+
    then have "utf8_decode ((0xC0 + q) # (0x80 + m) # r) =
        map_option ((#) (q * 64 + m)) (utf8_decode r)"
      using m by (rule decode_2)
    then show ?thesis
      using bs cq by simp
  next
    case three
    with assms have s: "c < 0xD800 \<or> 0xE000 \<le> c"
      by (auto simp add: encode_cp_def split: if_splits)
    with three assms have bs: "bs = [0xE0 + h, 0x80 + n, 0x80 + m]"
      by (auto simp add: encode_cp_def dv mo split: if_splits)
    from three cq m qh n s
    have "h < 16" "h = 0 \<Longrightarrow> 32 \<le> n" "h = 13 \<Longrightarrow> n < 32"
      by linarith+
    then have "utf8_decode ((0xE0 + h) # (0x80 + n) # (0x80 + m) # r) =
        map_option ((#) (h * 4096 + n * 64 + m)) (utf8_decode r)"
      using n m by (intro decode_3)
    moreover have "h * 4096 + n * 64 + m = c"
      using cq qh by simp
    ultimately show ?thesis
      using bs by simp
  next
    case four
    with assms have bs: "bs = [0xF0 + g, 0x80 + k, 0x80 + n, 0x80 + m]"
      by (auto simp add: encode_cp_def dv mo)
    from four cq m qh n hg k
    have "g < 5" "g = 0 \<Longrightarrow> 16 \<le> k" "g = 4 \<Longrightarrow> k < 16"
      by linarith+
    then have "utf8_decode ((0xF0 + g) # (0x80 + k) # (0x80 + n) # (0x80 + m) # r) =
        map_option ((#) (g * 262144 + k * 4096 + n * 64 + m)) (utf8_decode r)"
      using k n m by (intro decode_4)
    moreover have "g * 262144 + k * 4096 + n * 64 + m = c"
      using cq qh hg by simp
    ultimately show ?thesis
      using bs by simp
  next
    case none
    with assms show ?thesis
      by (simp add: encode_cp_def)
  qed
qed

lemma decode_encode: "utf8_encode t = Some bs \<Longrightarrow> utf8_decode bs = Some t"
proof (induction t arbitrary: bs)
  case Nil
  then show ?case by simp
next
  case (Cons c cs)
  from Cons.prems obtain b1 b2 where
    b: "encode_cp c = Some b1" "utf8_encode cs = Some b2" "bs = b1 @ b2"
    by (auto split: option.splits)
  from Cons.IH [OF b(2)] decode_encode_cp [OF b(1), of b2] b(3)
  show ?case by simp
qed

lemma encode_cp_bytes: "encode_cp c = Some bs \<Longrightarrow> b \<in> set bs \<Longrightarrow> b < 256"
proof -
  assume a: "encode_cp c = Some bs" "b \<in> set bs"
  have "c mod 64 < 64" "c div 64 mod 64 < 64" "c div 4096 mod 64 < 64"
    by simp_all
  moreover have "c < 0x800 \<Longrightarrow> c div 64 < 32" "c < 0x10000 \<Longrightarrow> c div 4096 < 16"
    "c < 0x110000 \<Longrightarrow> c div 262144 < 5"
    by simp_all
  ultimately show ?thesis
    using a unfolding encode_cp_def
    by (auto split: if_splits)
qed

lemma encode_bytes: "utf8_encode t = Some bs \<Longrightarrow> b \<in> set bs \<Longrightarrow> b < 256"
proof (induction t arbitrary: bs)
  case Nil
  then show ?case by simp
next
  case (Cons c cs)
  from Cons.prems(1) obtain b1 b2 where
    b: "encode_cp c = Some b1" "utf8_encode cs = Some b2" "bs = b1 @ b2"
    by (auto split: option.splits)
  with Cons.prems(2) have "b \<in> set b1 \<or> b \<in> set b2"
    by simp
  then show ?case
    using encode_cp_bytes [OF b(1)] Cons.IH [OF b(2)] by blast
qed

lemma unat_of_nat_bytes:
  "\<forall>b \<in> set e. b < 256 \<Longrightarrow> map unat (map of_nat e :: byte list) = e"
  by (induction e) (simp_all add: unat_of_nat)

lemma universal_newlines_no_cr: "13 \<notin> set (universal_newlines t)"
  by (induction t rule: universal_newlines.induct) (auto split: list.splits)

lemma universal_newlines_id: "13 \<notin> set t \<Longrightarrow> universal_newlines t = t"
  by (induction t rule: universal_newlines.induct) (auto split: list.splits)

lemma write_newlines_posix: "write_newlines Posix t = t"
  by (induction t) (simp_all add: write_newlines_def linesep_def)

lemma write_newlines_append:
  "write_newlines p (a @ b) = write_newlines p a @ write_newlines p b"
  by (simp add: write_newlines_def)

lemma universal_newlines_windows:
  "13 \<notin> set u \<Longrightarrow>
   universal_newlines (write_newlines Windows u @ v) = u @ universal_newlines v"
  by (induction u) (auto simp: write_newlines_def linesep_def)

lemma written_text_differs:
  assumes "t0 = write_newlines p (universal_newlines t0 @ [10])"
  shows False
proof -
  let ?u = "universal_newlines t0"
  have u: "13 \<notin> set ?u"
    by (rule universal_newlines_no_cr)
  show False
  proof (cases p)
    case Posix
    with assms have t0: "t0 = ?u @ [10]"
      by (simp add: write_newlines_posix)
    have "set t0 = set (?u @ [10])"
      by (rule arg_cong [OF t0])
    with u have "13 \<notin> set t0"
      by simp
    then have "?u = t0"
      by (rule universal_newlines_id)
    with t0 show False
      by simp
  next
    case Windows
    with assms have t0: "t0 = write_newlines Windows ?u @ [13, 10]"
      by (simp add: write_newlines_append) (simp add: write_newlines_def linesep_def)
    have "universal_newlines (write_newlines Windows ?u @ [13, 10]) = ?u @ [10]"
      using u by (simp add: universal_newlines_windows)
    with t0 have "?u = ?u @ [10]"
      by simp
    then show False
      by simp
  qed
qed

subsection \<open>Opening a file and saving it again\<close>

text \<open>
  Whatever a file holds, if it can be opened, decoded and written, then after
  \<open>open_file\<close> and \<open>save_file\<close> it holds something else: the text read has no
  carriage return left, and the text written ends with one more newline.
\<close>

lemma open_file_opened:
  assumes "file_path \<noteq> []" "open_read s file_path = Inr bs" "read_text bs = Inr t"
  shows "open_file file_path s =
           s\<lparr>buffer := t,
             edit_modified := (if t = [] then (if buffer s = [] then edit_modified s else True)
                               else True),
             current_file := Some file_path, title := TitleFile file_path,
             status_var := StatusOpened file_path\<rparr>"
  using assms by (simp add: open_file_def text_delete_all_def text_insert_end_def)

lemma open_then_save_changes_file:
  assumes "file_path \<noteq> []" "open_read s file_path = Inr bs" "read_text bs = Inr t"
    and "writable s file_path"
  shows "files (save_file dlg (open_file file_path s)) file_path \<noteq> Some bs"
proof
  assume same: "files (save_file dlg (open_file file_path s)) file_path = Some bs"
  from assms(3) obtain t0 where t0: "utf8_decode (map unat bs) = Some t0"
    and t: "t = universal_newlines t0"
    by (auto simp: read_text_def split: option.splits)
  let ?w = "write_newlines (os s) (t @ [10])"
  have sv: "files (save_file dlg (open_file file_path s)) file_path =
      Some (case utf8_encode ?w of None \<Rightarrow> [] | Some e \<Rightarrow> map of_nat e)"
    using assms
    by (simp add: open_file_opened save_file_set save_to_unfold showerror_def text_get_all_def
        split: option.split)
  show False
  proof (cases "utf8_encode ?w")
    case None
    with sv same have "bs = []"
      by simp
    with t0 t have "t = []"
      by simp
    with None show False
      by (cases "os s") (simp_all add: write_newlines_def linesep_def encode_cp_def)
  next
    case (Some e)
    with sv same have bs: "bs = map of_nat e"
      by simp
    have "\<forall>b \<in> set e. b < 256"
      using encode_bytes [OF Some] by blast
    then have "map unat bs = e"
      unfolding bs by (rule unat_of_nat_bytes)
    with t0 decode_encode [OF Some] have "t0 = ?w"
      by simp
    then show False
      unfolding t by (rule written_text_differs)
  qed
qed


text \<open>
  C1 asks that \<open>open_file\<close> followed by \<open>save_file\<close> leaves the bytes of the file as
  they were. \<open>save_file\<close> writes \<open>get(1.0, END)\<close>, which ends with the widget's own
  newline: the file \<open>notes.md\<close> holds \<open>abc\<close> before and \<open>abc\<close> followed by a newline
  after, and no error is shown.
\<close>

theorem open_then_save_appends_newline:
  "files demo ''notes.md'' = Some [0x61, 0x62, 0x63] \<and>
   buffer (open_file ''notes.md'' demo) = [97, 98, 99] \<and>
   notices (save_file [] (open_file ''notes.md'' demo)) = [] \<and>
   files (save_file [] (open_file ''notes.md'' demo)) ''notes.md'' =
     Some [0x61, 0x62, 0x63, 0x0A]"
  by (simp add: open_file_def open_read_def read_text_def text_delete_all_def
      text_insert_end_def save_file_unfold save_to_unfold text_get_all_def write_newlines_def
      linesep_def encode_cp_def demo_def)

end
